theory Spec2Isabelle
  imports Complex_Main "HOL-Library.Word"
begin

unbundle bit_operations_syntax

section \<open>Bytes, samples and JavaScript numbers\<close>

text \<open>
  A Node \<open>Buffer\<close> holds bytes; an \<open>Int16Array\<close> holds 16-bit two's complement samples,
  read with \<open>sint\<close>.
\<close>

type_synonym byte = "8 word"
type_synonym int16 = "16 word"

text \<open>
  The value of a JavaScript number: \<open>NaN\<close>, a real, or one of the infinities.
\<close>

datatype jsnum = NaN | Num real | PosInfinity | NegInfinity

text \<open>
  A number as it is stored, an IEEE 754 double: \<open>Double m e\<close> is the finite double of
  value \<open>m * 2 ^ e\<close> (a double has \<open>\<bar>m\<bar> < 2 ^ 53\<close> and \<open>- 1074 \<le> e \<le> 971\<close>).
\<close>

datatype double = DNaN | PlusInfinity | MinusInfinity | Double int int

fun doubleValue :: "double \<Rightarrow> jsnum" where
  "doubleValue DNaN = NaN"
| "doubleValue PlusInfinity = PosInfinity"
| "doubleValue MinusInfinity = NegInfinity"
| "doubleValue (Double m e) = Num (real_of_int m * 2 powi e)"

text \<open>
  A configuration property that was never set reads as \<open>undefined\<close> (\<open>None\<close>), and
  \<open>undefined\<close> converts to \<open>NaN\<close> in every comparison and product.
\<close>

definition toNumber :: "double option \<Rightarrow> jsnum" where
  "toNumber v = (case v of None \<Rightarrow> NaN | Some d \<Rightarrow> doubleValue d)"

text \<open>\<open>a > b\<close>: false as soon as one side is \<open>NaN\<close>.\<close>

fun js_gt :: "jsnum \<Rightarrow> jsnum \<Rightarrow> bool" where
  "js_gt (Num a) (Num b) = (b < a)"
| "js_gt (Num a) NegInfinity = True"
| "js_gt PosInfinity (Num b) = True"
| "js_gt PosInfinity NegInfinity = True"
| "js_gt _ _ = False"

text \<open>\<open>Math.max(a, b)\<close>: \<open>NaN\<close> as soon as one argument is \<open>NaN\<close>.\<close>

fun js_max :: "jsnum \<Rightarrow> jsnum \<Rightarrow> jsnum" where
  "js_max NaN _ = NaN"
| "js_max _ NaN = NaN"
| "js_max PosInfinity _ = PosInfinity"
| "js_max _ PosInfinity = PosInfinity"
| "js_max NegInfinity b = b"
| "js_max a NegInfinity = a"
| "js_max (Num a) (Num b) = Num (max a b)"

text \<open>The number of binary digits of a natural number.\<close>

fun bitlen :: "nat \<Rightarrow> nat" where
  "bitlen n = (if n = 0 then 0 else Suc (bitlen (n div 2)))"

declare bitlen.simps [simp del]

text \<open>\<open>a / 2 ^ k\<close> rounded to the nearest integer, a tie going to the even one.\<close>

definition roundHalfEven :: "nat \<Rightarrow> nat \<Rightarrow> nat" where
  "roundHalfEven a k =
     (let q = a div 2 ^ k; r = a mod 2 ^ k; half = 2 ^ (k - 1)
      in if half < r \<or> (r = half \<and> odd q) then q + 1 else q)"

text \<open>
  The double nearest to \<open>n * 2 ^ e\<close>, as every arithmetic operation on doubles rounds its
  exact result: the result keeps 53 binary digits, or fewer where it is a multiple of
  \<open>2 ^ - 1074\<close> (the subnormal range); a tie goes to the even neighbour; a result of
  \<open>2 ^ 1024\<close> or more in size is an infinity.
\<close>

definition roundToDouble :: "int \<Rightarrow> int \<Rightarrow> jsnum" where
  "roundToDouble n e =
     (if n = 0 then Num 0
      else
        let a = nat \<bar>n\<bar>;
            k = max (int (bitlen a) - 53) (- 1074 - e);
            q = (if 0 < k then roundHalfEven a (nat k) else a);
            e' = (if 0 < k then e + k else e)
        in if 1024 < int (bitlen q) + e'
           then (if n < 0 then NegInfinity else PosInfinity)
           else Num (real_of_int (sgn n * int q) * 2 powi e'))"

text \<open>
  \<open>i * v\<close> for an integer \<open>i\<close> (which a double holds exactly up to \<open>2 ^ 53\<close>) and a
  property value \<open>v\<close>: the product of doubles, rounded.
\<close>

fun js_mul :: "int \<Rightarrow> double option \<Rightarrow> jsnum" where
  "js_mul i None = NaN"
| "js_mul i (Some DNaN) = NaN"
| "js_mul i (Some PlusInfinity) =
     (if i = 0 then NaN else if 0 < i then PosInfinity else NegInfinity)"
| "js_mul i (Some MinusInfinity) =
     (if i = 0 then NaN else if 0 < i then NegInfinity else PosInfinity)"
| "js_mul i (Some (Double m e)) = roundToDouble (i * m) e"

datatype js_error = SyntaxError | TypeError | RangeError

section \<open>The audio processor (src/types/twilio-audio-processor.ts)\<close>

text \<open>
  \<open>TwilioAudioProcessorConfig\<close>. \<open>bufferSize\<close> is a byte count; the other two
  properties may be missing from the object the caller passes.
\<close>

record config =
  bufferSize :: nat
  minChunkSize :: "double option"
  noiseThreshold :: "double option"

text \<open>\<open>streamSid: string | null\<close>; the assignment in the \<open>start\<close> case can also store \<open>undefined\<close>.\<close>

datatype sid = SidNull | SidUndefined | Sid string

record processor =
  inBuffer :: "byte list list"
  hasSeenMedia :: bool
  messageCount :: nat
  isProcessingAudio :: bool
  streamSid :: sid

text \<open>The constructor.\<close>

definition newProcessor :: processor where
  "newProcessor = \<lparr>inBuffer = [], hasSeenMedia = False, messageCount = 0,
     isProcessingAudio = False, streamSid = SidNull\<rparr>"

subsection \<open>Frame buffer\<close>

text \<open>\<open>this.inBuffer.push(audioChunk)\<close>.\<close>

definition push :: "byte list list \<Rightarrow> byte list \<Rightarrow> byte list list" where
  "push buf audioChunk = buf @ [audioChunk]"

text \<open>\<open>getBufferSize\<close>: \<open>inBuffer.reduce((total, chunk) => total + chunk.length, 0)\<close>.\<close>

definition getBufferSize :: "byte list list \<Rightarrow> nat" where
  "getBufferSize buf = foldl (\<lambda>total chunk. total + length chunk) 0 buf"

text \<open>
  The counting loop of \<open>extractChunk\<close>: \<open>countChunks sz chunks totalSize i\<close> runs
  the \<open>for\<close> loop from index \<open>i\<close> on, \<open>chunks\<close> being the elements from \<open>i\<close>, and gives
  the final \<open>chunkCount\<close> (0 when the loop ends without \<open>break\<close>). \<open>sz\<close> stands for the
  parameter \<open>size\<close>.
\<close>

fun countChunks :: "nat \<Rightarrow> byte list list \<Rightarrow> nat \<Rightarrow> nat \<Rightarrow> nat" where
  "countChunks sz [] totalSize i = 0"
| "countChunks sz (c # cs) totalSize i =
     (if sz \<le> totalSize + length c then i + 1
      else countChunks sz cs (totalSize + length c) (i + 1))"

text \<open>
  \<open>extractChunk(size)\<close>: the returned chunk (\<open>None\<close> for \<open>null\<close>) and \<open>inBuffer\<close> after
  the call.
\<close>

definition extractChunk :: "nat \<Rightarrow> byte list list \<Rightarrow> byte list option \<times> byte list list" where
  "extractChunk sz buf =
     (let chunkCount = countChunks sz buf 0 0 in
      if chunkCount = 0 then (None, buf)
      else
        let chunks = take chunkCount buf;
            remaining = drop chunkCount buf;
            result = concat chunks
        in if sz < length result
           then (Some (take sz result), drop sz result # remaining)
           else (Some result, remaining))"

text \<open>
  Calling \<open>extractChunk(size)\<close> again and again until it returns \<open>null\<close>: the frames in
  order, and the buffer that is left. \<open>None\<close> is a loop that never ends.
\<close>

partial_function (option) extractAll ::
  "nat \<Rightarrow> byte list list \<Rightarrow> (byte list list \<times> byte list list) option" where
  "extractAll sz buf =
     (case extractChunk sz buf of
        (None, buf') \<Rightarrow> Some ([], buf')
      | (Some frame, buf') \<Rightarrow>
          Option.bind (extractAll sz buf')
            (\<lambda>(frames, rest). Some (frame # frames, rest)))"

declare extractAll.simps [code]

subsection \<open>Noise gate\<close>

text \<open>What \<open>preprocessAudio\<close> reads of its argument: the bytes and \<open>byteOffset\<close>.\<close>

record buffer =
  byteOffset :: nat
  contents :: "byte list"

text \<open>
  The samples an \<open>Int16Array\<close> shows over bytes (low byte first, as on every platform Node
  runs on), and the bytes under an \<open>Int16Array\<close>. A last byte without a partner belongs to
  no sample.
\<close>

fun samplesOf :: "byte list \<Rightarrow> int16 list" where
  "samplesOf (lo # hi # bs) = (push_bit 8 (ucast hi) OR ucast lo) # samplesOf bs"
| "samplesOf _ = []"

fun bytesOf :: "int16 list \<Rightarrow> byte list" where
  "bytesOf [] = []"
| "bytesOf (s # ss) = ucast s # ucast (drop_bit 8 s) # bytesOf ss"

text \<open>
  \<open>new Int16Array(audioBuffer.buffer, audioBuffer.byteOffset, audioBuffer.length / 2)\<close>:
  the constructor throws a \<open>RangeError\<close> when the offset is not a multiple of 2; the
  length argument is converted to an integer by truncation, so the view has
  \<open>length div 2\<close> samples. The view always fits in the backing store, since the buffer does.
\<close>

definition int16View :: "buffer \<Rightarrow> js_error + int16 list" where
  "int16View audioBuffer =
     (if odd (byteOffset audioBuffer) then Inl RangeError
      else Inr (samplesOf (contents audioBuffer)))"

text \<open>\<open>Math.abs(samples[i])\<close>.\<close>

definition amplitude :: "int16 \<Rightarrow> int" where
  "amplitude s = \<bar>sint s\<bar>"

text \<open>The first loop of \<open>preprocessAudio\<close>.\<close>

definition findMaxAmplitude :: "int16 list \<Rightarrow> int" where
  "findMaxAmplitude samples =
     foldl (\<lambda>maxAmplitude s. if maxAmplitude < amplitude s then amplitude s else maxAmplitude)
       0 samples"

text \<open>\<open>Math.max(maxAmplitude * threshold, 100)\<close>.\<close>

definition gateThresholdOf :: "config \<Rightarrow> int \<Rightarrow> jsnum" where
  "gateThresholdOf cfg maxAmplitude =
     js_max (js_mul maxAmplitude (noiseThreshold cfg)) (Num 100)"

text \<open>
  \<open>preprocessAudio\<close>: the bytes of the returned buffer. An exception in the \<open>try\<close> block
  ends in the \<open>catch\<close>, which returns the argument.
\<close>

definition preprocessAudio :: "config \<Rightarrow> buffer \<Rightarrow> byte list" where
  "preprocessAudio cfg audioBuffer =
     (case int16View audioBuffer of
        Inl error \<Rightarrow> contents audioBuffer
      | Inr samples \<Rightarrow>
          let gateThreshold = gateThresholdOf cfg (findMaxAmplitude samples);
              processedSamples =
                map (\<lambda>s. if js_gt (Num (real_of_int (amplitude s))) gateThreshold then s else 0)
                  samples;
              hasSignificantAudio =
                list_ex (\<lambda>s. js_gt (Num (real_of_int (amplitude s))) gateThreshold) samples
          in if \<not> hasSignificantAudio then [] else bytesOf processedSamples)"

subsection \<open>Telephony events\<close>

text \<open>\<open>isValidAudioChunk\<close>.\<close>

definition isValidAudioChunk :: "byte list \<Rightarrow> bool" where
  "isValidAudioChunk audioChunk =
     (if length audioChunk < 20 then False
      else list_ex (\<lambda>b. b \<noteq> 0) (take (min (length audioChunk) 100) audioChunk))"

text \<open>
  The speech connection as the processor sees it: \<open>readyState\<close>, and whether \<open>send\<close>
  throws.
\<close>

datatype readyState = CONNECTING | OPEN | CLOSING | CLOSED

record connection =
  readyState :: readyState
  sendThrows :: bool

definition isDeepgramReady :: "connection \<Rightarrow> bool" where
  "isDeepgramReady conn = (readyState conn = OPEN)"

text \<open>
  The \<open>while\<close> loop of \<open>handleMediaEvent\<close>: \<open>inBuffer\<close> and the chunks handed to \<open>send\<close> so
  far, and both when the loop ends. \<open>Buffer.concat\<close> allocates its result at an aligned
  offset, written 0 here. \<open>None\<close> is a loop that never ends.
\<close>

partial_function (option) mediaLoop ::
  "config \<Rightarrow> connection \<Rightarrow> byte list list \<Rightarrow> byte list list \<Rightarrow>
     (byte list list \<times> byte list list) option" where
  "mediaLoop cfg conn buf sent =
     (if bufferSize cfg \<le> getBufferSize buf then
        (case extractChunk (bufferSize cfg) buf of
           (None, buf') \<Rightarrow> mediaLoop cfg conn buf' sent
         | (Some chunk, buf') \<Rightarrow>
             (let processedChunk = preprocessAudio cfg \<lparr>byteOffset = 0, contents = chunk\<rparr> in
              if 0 < length processedChunk then
                if isDeepgramReady conn then
                  if sendThrows conn then mediaLoop cfg conn buf' sent
                  else mediaLoop cfg conn buf' (sent @ [processedChunk])
                else mediaLoop cfg conn buf' sent
              else mediaLoop cfg conn buf' sent))
      else Some (buf, sent))"

declare mediaLoop.simps [code]

text \<open>
  What one pass of that loop's body hands to \<open>send\<close> for the chunk it extracted: the
  processed chunk, when it is not empty, the speech connection is open and \<open>send\<close> does
  not throw.
\<close>

definition forwardChunk :: "config \<Rightarrow> connection \<Rightarrow> byte list \<Rightarrow> byte list list" where
  "forwardChunk cfg conn chunk =
     (let processedChunk = preprocessAudio cfg \<lparr>byteOffset = 0, contents = chunk\<rparr> in
      if 0 < length processedChunk \<and> isDeepgramReady conn \<and> \<not> sendThrows conn
      then [processedChunk] else [])"

text \<open>
  \<open>data.media\<close> of a telephony message: \<open>track\<close>, and \<open>payload\<close> after base64 decoding
  (\<open>None\<close> when it is not a string, where \<open>Buffer.from\<close> throws).
\<close>

record media =
  track :: "string option"
  payload :: "byte list option"

text \<open>
  A parsed telephony message by its \<open>event\<close>: \<open>Start\<close> carries \<open>data.start?.streamSid\<close>
  (\<open>None\<close> for \<open>undefined\<close>), \<open>Media\<close> carries \<open>data.media\<close>.
\<close>

datatype twilio_event = Connected | Start "string option" | Media "media option" | Stop | OtherEvent

text \<open>\<open>resetState\<close>.\<close>

definition resetState :: "processor \<Rightarrow> processor" where
  "resetState s = s\<lparr>hasSeenMedia := False, messageCount := 0, isProcessingAudio := False,
     streamSid := SidNull, inBuffer := []\<rparr>"

text \<open>
  \<open>handleMediaEvent\<close>: the processor afterwards and the chunks sent to the speech peer.
  \<open>m\<close> is \<open>data.media\<close>, \<open>None\<close> when the message has none. An exception in the \<open>try\<close>
  block is logged, and \<open>finally\<close> clears the flag.
\<close>

definition handleMediaEvent ::
  "config \<Rightarrow> media option \<Rightarrow> connection \<Rightarrow> processor \<Rightarrow> (processor \<times> byte list list) option" where
  "handleMediaEvent cfg m conn s0 =
     (let s = (if \<not> hasSeenMedia s0 then s0\<lparr>hasSeenMedia := True\<rparr> else s0) in
      case m of
        None \<Rightarrow> Some (s, [])
      | Some md \<Rightarrow>
          if track md = Some ''inbound'' \<and> \<not> isProcessingAudio s then
            (case payload md of
               None \<Rightarrow> Some (s\<lparr>isProcessingAudio := False\<rparr>, [])
             | Some audioChunk \<Rightarrow>
                 if js_gt (Num (real (length audioChunk))) (toNumber (minChunkSize cfg)) then
                   if isValidAudioChunk audioChunk then
                     (case mediaLoop cfg conn (push (inBuffer s) audioChunk) [] of
                        None \<Rightarrow> None
                      | Some (buf, sent) \<Rightarrow>
                          Some (s\<lparr>inBuffer := buf, isProcessingAudio := False\<rparr>, sent))
                   else Some (s\<lparr>isProcessingAudio := False\<rparr>, [])
                 else Some (s\<lparr>isProcessingAudio := False\<rparr>, []))
          else Some (s, []))"

text \<open>\<open>handleTwilioEvent\<close>.\<close>

definition handleTwilioEvent ::
  "config \<Rightarrow> twilio_event \<Rightarrow> connection \<Rightarrow> processor \<Rightarrow> (processor \<times> byte list list) option" where
  "handleTwilioEvent cfg data conn s =
     (case data of
        Connected \<Rightarrow> Some (s, [])
      | Start v \<Rightarrow>
          Some (s\<lparr>streamSid := (case v of None \<Rightarrow> SidUndefined | Some x \<Rightarrow> Sid x)\<rparr>, [])
      | Media m \<Rightarrow> handleMediaEvent cfg m conn s
      | Stop \<Rightarrow> Some (resetState s, [])
      | OtherEvent \<Rightarrow> Some (s, []))"

text \<open>
  A message as \<open>processMessage\<close> receives it: \<open>Utf8\<close> with the result of \<open>JSON.parse\<close> on
  its text (\<open>None\<close> when \<open>JSON.parse\<close> throws), or \<open>Binary\<close>.
\<close>

datatype ws_message = Utf8 "twilio_event option" | Binary

text \<open>
  \<open>processMessage\<close>: \<open>Inl\<close> is the exception that leaves the method (nothing has been
  changed by then), \<open>Inr\<close> the processor afterwards and the chunks sent.
\<close>

definition processMessage ::
  "config \<Rightarrow> ws_message \<Rightarrow> connection \<Rightarrow> processor \<Rightarrow>
     (js_error + processor \<times> byte list list) option" where
  "processMessage cfg message conn s =
     (case message of
        Utf8 None \<Rightarrow> Some (Inl SyntaxError)
      | Utf8 (Some data) \<Rightarrow>
          (case handleTwilioEvent cfg data conn s of
             None \<Rightarrow> None
           | Some (s', sent) \<Rightarrow> Some (Inr (s'\<lparr>messageCount := messageCount s' + 1\<rparr>, sent)))
      | Binary \<Rightarrow> Some (Inr (s, [])))"

section \<open>The server (src/server/voice-agent-server.ts)\<close>

subsection \<open>Inbound messages\<close>

text \<open>
  The configuration \<open>handleTwilioConnection\<close> passes to the processor:
  \<open>{ bufferSize: 20 * 160 }\<close> and nothing else.
\<close>

definition supervisorConfig :: config where
  "supervisorConfig = \<lparr>bufferSize = 20 * 160, minChunkSize = None, noiseThreshold = None\<rparr>"

text \<open>
  The \<open>message\<close> handler of the telephony socket: every message goes to \<open>processMessage\<close>
  as \<open>utf8\<close>, and an exception is logged and dropped.
\<close>

definition onTwilioMessage ::
  "twilio_event option \<Rightarrow> connection \<Rightarrow> processor \<Rightarrow> (processor \<times> byte list list) option" where
  "onTwilioMessage parsed conn s =
     (case processMessage supervisorConfig (Utf8 parsed) conn s of
        None \<Rightarrow> None
      | Some (Inl error) \<Rightarrow> Some (s, [])
      | Some (Inr r) \<Rightarrow> Some r)"

text \<open>
  A session's inbound messages in order, each with the state of the speech connection
  when it arrives: the processor at the end and everything sent to the speech peer.
\<close>

fun relayInbound ::
  "(twilio_event option \<times> connection) list \<Rightarrow> processor \<Rightarrow> (processor \<times> byte list list) option" where
  "relayInbound [] s = Some (s, [])"
| "relayInbound ((parsed, conn) # ms) s =
     (case onTwilioMessage parsed conn s of
        None \<Rightarrow> None
      | Some (s', sent) \<Rightarrow>
          (case relayInbound ms s' of
             None \<Rightarrow> None
           | Some (s'', sent') \<Rightarrow> Some (s'', sent @ sent')))"

subsection \<open>Function calls\<close>

text \<open>
  JSON values. \<open>JSON.stringify\<close> followed by decoding gives the value back, so a
  response's \<open>content\<close> is kept as the value it decodes to.
\<close>

datatype json = JNull | JBool bool | JNum real | JStr string | JArr "json list"
  | JObj "(string \<times> json) list"

text \<open>
  One entry of \<open>message.functions\<close>: \<open>arguments\<close> holds the result of \<open>JSON.parse\<close> on the
  entry's argument text, \<open>None\<close> when \<open>JSON.parse\<close> throws.
\<close>

record functionCall =
  call_name :: string
  call_id :: string
  call_arguments :: "json option"

record functionCallResponse =
  resp_type :: string
  resp_id :: string
  resp_name :: string
  resp_content :: json

text \<open>
  What calling an entry of the function map does: return a value, or throw (with the
  text the exception prints as).
\<close>

datatype outcome = Returned json | Threw string

text \<open>
  \<open>FUNCTION_MAP\<close> is imported from a module that is not part of the sources at hand, so
  it is a parameter: the names for which \<open>funcName in FUNCTION_MAP\<close> holds, own and
  inherited alike, each with what the call \<open>FUNCTION_MAP[funcName](arguments_)\<close> does.
\<close>

type_synonym functionMap = "string \<Rightarrow> (json \<Rightarrow> outcome) option"

text \<open>
  The property names every object inherits from \<open>Object.prototype\<close>; \<open>in\<close> finds them in
  every object literal.
\<close>

definition objectPrototypeNames :: "string list" where
  "objectPrototypeNames =
     [''constructor'', ''__defineGetter__'', ''__defineSetter__'', ''hasOwnProperty'',
      ''__lookupGetter__'', ''__lookupSetter__'', ''isPrototypeOf'', ''propertyIsEnumerable'',
      ''toString'', ''valueOf'', ''__proto__'', ''toLocaleString'']"

text \<open>
  \<open>FUNCTION_MAP\<close> when it is the object literal of a dispatch table \<open>table\<close> (its type,
  \<open>FunctionMap\<close>, is that of an object indexed by name): \<open>in\<close> finds the table's keys
  and, behind them, the inherited names. The inherited \<open>toString\<close>, called on such an
  object, returns the text \<open>[object Object]\<close>. What calling one of the other inherited
  members does is left to the parameter \<open>inherited\<close>.
\<close>

definition objectLiteral ::
  "(string \<Rightarrow> json \<Rightarrow> outcome) \<Rightarrow> (string \<rightharpoonup> (json \<Rightarrow> outcome)) \<Rightarrow> functionMap" where
  "objectLiteral inherited table name =
     (case table name of
        Some f \<Rightarrow> Some f
      | None \<Rightarrow>
          if name = ''toString'' then Some (\<lambda>arguments. Returned (JStr ''[object Object]''))
          else if name \<in> set objectPrototypeNames then Some (inherited name)
          else None)"

text \<open>The object sent after a call that did not throw.\<close>

definition functionResult :: "functionCall \<Rightarrow> json \<Rightarrow> functionCallResponse" where
  "functionResult fc result = \<lparr>resp_type = ''FunctionCallResponse'', resp_id = call_id fc,
     resp_name = call_name fc, resp_content = result\<rparr>"

text \<open>The object sent from the \<open>catch\<close> block.\<close>

definition errorResult :: "string \<Rightarrow> functionCallResponse" where
  "errorResult error = \<lparr>resp_type = ''FunctionCallResponse'', resp_id = ''unknown'',
     resp_name = ''unknown'',
     resp_content = JObj [(''error'', JStr (''Function call failed with: '' @ error))]\<rparr>"

text \<open>
  The body of the \<open>for\<close> loop of \<open>handleFunctionCallRequest\<close> for one entry: \<open>Inl\<close> the
  exception that leaves it, \<open>Inr\<close> the response it sends. The exception of \<open>JSON.parse\<close>
  is written by its name alone.
\<close>

definition callFunction :: "functionMap \<Rightarrow> functionCall \<Rightarrow> string + functionCallResponse" where
  "callFunction fm fc =
     (case call_arguments fc of
        None \<Rightarrow> Inl ''SyntaxError''
      | Some arguments \<Rightarrow>
          (case (case fm (call_name fc) of
                   Some f \<Rightarrow> f arguments
                 | None \<Rightarrow>
                     Returned (JObj [(''error'', JStr (''Unknown function: '' @ call_name fc))]))
           of
             Threw error \<Rightarrow> Inl error
           | Returned result \<Rightarrow> Inr (functionResult fc result)))"

text \<open>
  The loop: the responses sent, in order, and the exception that ended the loop, if one
  did.
\<close>

fun callFunctions :: "functionMap \<Rightarrow> functionCall list \<Rightarrow> functionCallResponse list \<times> string option" where
  "callFunctions fm [] = ([], None)"
| "callFunctions fm (fc # rest) =
     (case callFunction fm fc of
        Inl error \<Rightarrow> ([], Some error)
      | Inr response \<Rightarrow>
          (case callFunctions fm rest of (sent, thrown) \<Rightarrow> (response # sent, thrown)))"

text \<open>\<open>handleFunctionCallRequest\<close>: everything sent to the speech peer, in order.\<close>

definition handleFunctionCallRequest :: "functionMap \<Rightarrow> functionCall list \<Rightarrow> functionCallResponse list" where
  "handleFunctionCallRequest fm functions =
     (case callFunctions fm functions of
        (sent, None) \<Rightarrow> sent
      | (sent, Some error) \<Rightarrow> sent @ [errorResult error])"

text \<open>A response's content decodes to an object with an \<open>error\<close> key.\<close>

definition hasErrorKey :: "json \<Rightarrow> bool" where
  "hasErrorKey v = (case v of JObj kvs \<Rightarrow> list_ex (\<lambda>kv. fst kv = ''error'') kvs | _ \<Rightarrow> False)"

subsection \<open>The connection timer\<close>

text \<open>
  The timer made by \<open>setTimeout\<close> in \<open>setupWebSocketHandlers\<close>. \<open>clearTimeout\<close> cancels a
  timer that is still pending and does nothing to one that was cancelled or has run.
\<close>

datatype timer = Armed | Cleared | Fired

definition clearTimeout :: "timer \<Rightarrow> timer" where
  "clearTimeout t = (if t = Armed then Cleared else t)"

text \<open>
  One telephony connection as the handlers of \<open>handleTwilioConnection\<close> change it: the
  timer, how often \<open>clearTimeout\<close> was called on it, and which of \<open>ws.close()\<close>,
  \<open>deepgramConnection.close()\<close> and the sending of the agent configuration have happened.
\<close>

record session =
  connectionTimeout :: timer
  clearTimeoutCalls :: nat
  twilioCloseCalled :: bool
  deepgramCloseCalled :: bool
  configSent :: bool

definition newSession :: session where
  "newSession = \<lparr>connectionTimeout = Armed, clearTimeoutCalls = 0, twilioCloseCalled = False,
     deepgramCloseCalled = False, configSent = False\<rparr>"

text \<open>
  The events of a session: \<open>open\<close>, \<open>close\<close> and \<open>error\<close> of the speech socket, \<open>close\<close>
  and \<open>error\<close> of the telephony socket, the timer running out, and the server's \<open>stop\<close>.
\<close>

datatype session_event = DeepgramOpen | DeepgramClose | DeepgramError
  | TwilioClose | TwilioError | TimeoutExpires | ServerStop

text \<open>The handler of each event.\<close>

fun onEvent :: "session_event \<Rightarrow> session \<Rightarrow> session" where
  "onEvent DeepgramOpen s =
     s\<lparr>connectionTimeout := clearTimeout (connectionTimeout s),
       clearTimeoutCalls := clearTimeoutCalls s + 1, configSent := True\<rparr>"
| "onEvent DeepgramClose s = s"
| "onEvent DeepgramError s = s"
| "onEvent TwilioClose s = s\<lparr>deepgramCloseCalled := True\<rparr>"
| "onEvent TwilioError s =
     s\<lparr>connectionTimeout := clearTimeout (connectionTimeout s),
       clearTimeoutCalls := clearTimeoutCalls s + 1\<rparr>"
| "onEvent TimeoutExpires s =
     (if connectionTimeout s = Armed
      then s\<lparr>connectionTimeout := Fired, twilioCloseCalled := True\<rparr> else s)"
| "onEvent ServerStop s = s"

definition runSession :: "session_event list \<Rightarrow> session" where
  "runSession events = foldl (\<lambda>s e. onEvent e s) newSession events"

section \<open>Frame buffer: extraction\<close>

lemma foldl_total: "foldl (\<lambda>total chunk. total + length chunk) a buf = a + length (concat buf)"
  by (induction buf arbitrary: a) auto

lemma getBufferSize_concat: "getBufferSize buf = length (concat buf)"
  by (simp add: getBufferSize_def foldl_total)

lemma foldl_push: "foldl push acc fragments = acc @ fragments"
  by (induction fragments arbitrary: acc) (auto simp: push_def)

text \<open>The counting loop finds nothing when the buffer holds too little.\<close>

lemma countChunks_none:
  "totalSize + length (concat cs) < sz \<Longrightarrow> countChunks sz cs totalSize i = 0"
  by (induction cs arbitrary: totalSize i) auto

text \<open>Otherwise it stops at a positive count whose chunks reach the size.\<close>

lemma countChunks_found:
  "sz \<le> totalSize + length (concat cs) \<Longrightarrow> totalSize < sz \<Longrightarrow>
   \<exists>k. countChunks sz cs totalSize i = i + k \<and> 0 < k \<and> k \<le> length cs
       \<and> sz \<le> totalSize + length (concat (take k cs))"
proof (induction cs arbitrary: totalSize i)
  case Nil
  then show ?case by simp
next
  case (Cons c cs)
  show ?case
  proof (cases "sz \<le> totalSize + length c")
    case True
    then show ?thesis by (intro exI [of _ 1]) simp
  next
    case False
    with Cons.prems have "sz \<le> (totalSize + length c) + length (concat cs)"
      and "totalSize + length c < sz" by auto
    from Cons.IH [OF this, of "i + 1"] obtain k where
      k: "countChunks sz cs (totalSize + length c) (i + 1) = i + 1 + k" "0 < k" "k \<le> length cs"
         "sz \<le> totalSize + length c + length (concat (take k cs))" by blast
    with False show ?thesis by (intro exI [of _ "Suc k"]) simp
  qed
qed

lemma extractChunk_none:
  "getBufferSize buf < sz \<Longrightarrow> extractChunk sz buf = (None, buf)"
  by (simp add: extractChunk_def getBufferSize_concat countChunks_none)

lemma extractChunk_some:
  assumes "0 < sz" and "sz \<le> getBufferSize buf"
  shows "\<exists>frame buf'. extractChunk sz buf = (Some frame, buf') \<and> length frame = sz
           \<and> frame @ concat buf' = concat buf"
proof -
  from assms have "sz \<le> 0 + length (concat buf)" by (simp add: getBufferSize_concat)
  from countChunks_found [OF this \<open>0 < sz\<close>, of 0] obtain k where
    k: "countChunks sz buf 0 0 = k" "0 < k" "k \<le> length buf"
       "sz \<le> length (concat (take k buf))" by auto
  have parts: "concat (take k buf) @ concat (drop k buf) = concat buf"
    by (metis append_take_drop_id concat_append)
  show ?thesis
  proof (cases "sz < length (concat (take k buf))")
    case True
    have "take sz (concat (take k buf)) @ drop sz (concat (take k buf)) @ concat (drop k buf)
            = concat buf"
      using parts by (metis append_assoc append_take_drop_id)
    with True k show ?thesis by (simp add: extractChunk_def Let_def)
  next
    case False
    with k have "length (concat (take k buf)) = sz" by simp
    with False k parts show ?thesis by (simp add: extractChunk_def Let_def)
  qed
qed

text \<open>
  Repeated extraction ends for every positive size, and splits the buffered bytes into
  full frames and a short remainder.
\<close>

lemma extractAll_total:
  assumes "0 < sz"
  shows "\<exists>frames rest. extractAll sz buf = Some (frames, rest)
           \<and> (\<forall>f \<in> set frames. length f = sz)
           \<and> concat frames @ concat rest = concat buf
           \<and> length (concat rest) < sz
           \<and> length frames = length (concat buf) div sz"
proof (induction "length (concat buf)" arbitrary: buf rule: less_induct)
  case less
  show ?case
  proof (cases "getBufferSize buf < sz")
    case True
    then have "extractAll sz buf = Some ([], buf)"
      by (subst extractAll.simps) (simp add: extractChunk_none)
    with True show ?thesis by (simp add: getBufferSize_concat)
  next
    case False
    then have ge: "sz \<le> getBufferSize buf" by simp
    from extractChunk_some [OF assms ge] obtain frame buf' where
      e: "extractChunk sz buf = (Some frame, buf')" "length frame = sz"
         "frame @ concat buf' = concat buf" by blast
    from e(2,3) have len: "length (concat buf) = sz + length (concat buf')"
      by (metis length_append)
    with assms have "length (concat buf') < length (concat buf)" by simp
    from less [OF this] obtain frames rest where
      r: "extractAll sz buf' = Some (frames, rest)" "\<forall>f \<in> set frames. length f = sz"
         "concat frames @ concat rest = concat buf'" "length (concat rest) < sz"
         "length frames = length (concat buf') div sz" by blast
    have "extractAll sz buf = Some (frame # frames, rest)"
      by (subst extractAll.simps) (simp add: e r)
    moreover have "length (frame # frames) = length (concat buf) div sz"
      using r(5) len assms by simp
    ultimately show ?thesis using e r by auto
  qed
qed

text \<open>
  For a positive \<open>bufferSize\<close> the \<open>while\<close> loop of \<open>handleMediaEvent\<close> ends. It
  extracts the frames that calling \<open>extractChunk\<close> until \<open>null\<close> gives, leaves the same
  remainder in the buffer, and sends what the gate makes of each frame.
\<close>

lemma mediaLoop_extractAll:
  assumes "0 < bufferSize cfg"
  shows "\<exists>frames rest. extractAll (bufferSize cfg) buf = Some (frames, rest)
           \<and> mediaLoop cfg conn buf sent
               = Some (rest, sent @ concat (map (forwardChunk cfg conn) frames))"
proof (induction "length (concat buf)" arbitrary: buf sent rule: less_induct)
  case less
  show ?case
  proof (cases "bufferSize cfg \<le> getBufferSize buf")
    case False
    then have "extractAll (bufferSize cfg) buf = Some ([], buf)"
      by (subst extractAll.simps) (simp add: extractChunk_none)
    moreover from False have "mediaLoop cfg conn buf sent = Some (buf, sent)"
      by (subst mediaLoop.simps) simp
    ultimately show ?thesis by simp
  next
    case True
    from extractChunk_some [OF assms True] obtain frame buf' where
      e: "extractChunk (bufferSize cfg) buf = (Some frame, buf')"
         "length frame = bufferSize cfg" "frame @ concat buf' = concat buf" by blast
    from e(2,3) have "length (concat buf) = bufferSize cfg + length (concat buf')"
      by (metis length_append)
    with assms have shorter: "length (concat buf') < length (concat buf)" by simp
    from less [OF shorter, of "sent @ forwardChunk cfg conn frame"] obtain frames rest where
      r: "extractAll (bufferSize cfg) buf' = Some (frames, rest)"
         "mediaLoop cfg conn buf' (sent @ forwardChunk cfg conn frame)
            = Some (rest, (sent @ forwardChunk cfg conn frame)
                          @ concat (map (forwardChunk cfg conn) frames))" by blast
    have "extractAll (bufferSize cfg) buf = Some (frame # frames, rest)"
      by (subst extractAll.simps) (simp add: e r)
    moreover have "mediaLoop cfg conn buf sent
        = mediaLoop cfg conn buf' (sent @ forwardChunk cfg conn frame)"
      by (subst mediaLoop.simps) (simp add: True e forwardChunk_def Let_def)
    ultimately show ?thesis using r(2) by simp
  qed
qed

text \<open>
  C1. Let fragments be appended to an empty buffer, and let the frame size be positive.
  Calling \<open>extractChunk\<close> until it returns \<open>null\<close> ends, and gives frames of exactly the
  frame size, one for every full frame size of bytes appended, whose concatenation
  followed by the bytes left in the buffer is the concatenation of the fragments; fewer
  bytes than one frame are left. On any buffer holding fewer bytes than the size,
  \<open>extractChunk\<close> returns \<open>null\<close> and leaves the buffer as it is; on any buffer holding at
  least the size it returns a frame of exactly that size, taken from the front.
\<close>

theorem extract_frames_in_order:
  assumes "0 < sz"
  shows "(\<exists>frames rest. extractAll sz (foldl push [] fragments) = Some (frames, rest)
            \<and> (\<forall>f \<in> set frames. length f = sz)
            \<and> concat frames @ concat rest = concat fragments
            \<and> length (concat rest) < sz
            \<and> length frames = length (concat fragments) div sz)
       \<and> (getBufferSize buf < sz \<longrightarrow> extractChunk sz buf = (None, buf))
       \<and> (sz \<le> getBufferSize buf \<longrightarrow>
            (\<exists>frame buf'. extractChunk sz buf = (Some frame, buf') \<and> length frame = sz
               \<and> frame @ concat buf' = concat buf))"
  using extractAll_total [OF assms, of fragments] extractChunk_none [of buf sz]
    extractChunk_some [OF assms, of buf]
  by (simp add: foldl_push)

theorem extract_frames_in_order_witness:
  "0 < (2::nat)
   \<and> extractAll 2 (foldl push [] [ [1], [2, 3, 4], [5] ]) = Some ([ [1, 2], [3, 4] ], [ [5] ])
   \<and> extractChunk 2 [ [5] ] = (None, [ [5] ])
   \<and> extractChunk 2 [ [1], [2, 3, 4], [5] ] = (Some [1, 2], [ [3, 4], [5] ])"
  using extract_frames_in_order [of 2 "[ [1], [2, 3, 4], [5] ]" "[ [5] ]"]
  by (simp add: push_def extractAll.simps extractChunk_def)

section \<open>Rounding to doubles\<close>

text \<open>A positive number lies between the powers of two its digit count gives.\<close>

lemma bitlen_bounds: "0 < n \<Longrightarrow> 2 ^ (bitlen n - 1) \<le> n \<and> n < 2 ^ bitlen n"
proof (induction n rule: bitlen.induct)
  case (1 n)
  have b: "bitlen n = Suc (bitlen (n div 2))" using 1(2) by (subst bitlen.simps) simp
  show ?case
  proof (cases "n div 2 = 0")
    case True
    with 1(2) have "n = 1" by (simp add: div_eq_0_iff)
    moreover have "bitlen (0::nat) = 0" by (subst bitlen.simps) simp
    ultimately show ?thesis using b by simp
  next
    case False
    with 1 have ih: "2 ^ (bitlen (n div 2) - 1) \<le> n div 2" "n div 2 < 2 ^ bitlen (n div 2)"
      by auto
    from False have pos: "0 < bitlen (n div 2)" by (subst bitlen.simps) simp
    have "2 ^ (bitlen n - 1) = 2 * 2 ^ (bitlen (n div 2) - 1)"
      using pos by (simp add: b flip: power_Suc)
    also have "\<dots> \<le> 2 * (n div 2)" using ih(1) by simp
    also have "\<dots> \<le> n" by simp
    finally have "2 ^ (bitlen n - 1) \<le> n" .
    moreover have "n < 2 ^ bitlen n" using ih(2) by (simp add: b)
    ultimately show ?thesis by simp
  qed
qed

text \<open>Rounding to the nearest integer is off by at most one half.\<close>

lemma roundHalfEven_error:
  assumes "0 < k"
  shows "2 * \<bar>int (roundHalfEven a k) * 2 ^ k - int a\<bar> \<le> 2 ^ k"
proof -
  define q where "q = a div 2 ^ k"
  define r where "r = a mod 2 ^ k"
  define h where "h = (2::nat) ^ (k - 1)"
  have a: "a = q * 2 ^ k + r" unfolding q_def r_def by (rule div_mult_mod_eq [symmetric])
  have hk: "(2::nat) ^ k = 2 * h" using assms by (simp add: h_def flip: power_Suc)
  have hpos: "0 < h" by (simp add: h_def)
  have r: "r < 2 * h" using hk hpos by (simp add: r_def)
  have hk': "(2::int) ^ k = 2 * int h" using hk by (metis of_nat_numeral of_nat_power of_nat_mult)
  have ia: "int a = int q * (2 * int h) + int r"
    using a hk by (metis of_nat_add of_nat_mult of_nat_numeral)
  show ?thesis
  proof (cases "h < r \<or> (r = h \<and> odd q)")
    case True
    then have "roundHalfEven a k = q + 1"
      by (simp add: roundHalfEven_def Let_def q_def r_def h_def)
    moreover have "int (q + 1) * (2 * int h) - int a = 2 * int h - int r"
      by (simp add: ia algebra_simps)
    ultimately show ?thesis using True r by (auto simp add: hk')
  next
    case False
    then have "roundHalfEven a k = q"
      by (simp add: roundHalfEven_def Let_def q_def r_def h_def)
    moreover have "int q * (2 * int h) - int a = - int r"
      by (simp add: ia algebra_simps)
    ultimately show ?thesis using False r by (auto simp add: hk')
  qed
qed

text \<open>\<open>roundToDouble\<close> away from zero, with its shift \<open>k\<close> named.\<close>

lemma roundToDouble_unfold:
  assumes "n \<noteq> 0" and "a = nat \<bar>n\<bar>" and "k = max (int (bitlen a) - 53) (- 1074 - e)"
  shows "roundToDouble n e =
     (if 1024 < int (bitlen (if 0 < k then roundHalfEven a (nat k) else a))
               + (if 0 < k then e + k else e)
      then (if n < 0 then NegInfinity else PosInfinity)
      else Num (real_of_int (sgn n * int (if 0 < k then roundHalfEven a (nat k) else a))
                * 2 powi (if 0 < k then e + k else e)))"
  unfolding roundToDouble_def Let_def assms(2,3) by (simp only: assms(1) if_False)

text \<open>A value that is a double already is left as it is.\<close>

lemma roundToDouble_exact:
  assumes "n \<noteq> 0" and "bitlen (nat \<bar>n\<bar>) \<le> 53" and "- 1074 \<le> e"
    and "int (bitlen (nat \<bar>n\<bar>)) + e \<le> 1024"
  shows "roundToDouble n e = Num (real_of_int n * 2 powi e)"
proof -
  define a where "a = nat \<bar>n\<bar>"
  define k where "k = max (int (bitlen a) - 53) (- 1074 - e)"
  have sa: "sgn n * int a = n" by (simp add: a_def sgn_mult_abs)
  have "\<not> 0 < k" using assms(2,3) by (simp add: k_def a_def)
  moreover have "\<not> 1024 < int (bitlen a) + e" using assms(4) by (simp add: a_def)
  ultimately show ?thesis
    using roundToDouble_unfold [OF assms(1) a_def k_def] by (simp add: sa)
qed

text \<open>
  A finite result differs from the exact value by at most the fraction \<open>2 ^ - 53\<close> of it,
  or by \<open>2 ^ - 1075\<close> in the subnormal range: half a step of the grid of doubles.
\<close>

lemma roundToDouble_error:
  assumes "roundToDouble n e = Num t"
  shows "\<bar>t - real_of_int n * 2 powi e\<bar>
           \<le> max (\<bar>real_of_int n * 2 powi e\<bar> * 2 powi (- 53)) (2 powi (- 1075))"
proof (cases "n = 0")
  case True
  with assms show ?thesis by (simp add: roundToDouble_def)
next
  case False
  define a where "a = nat \<bar>n\<bar>"
  define k where "k = max (int (bitlen a) - 53) (- 1074 - e)"
  have apos: "0 < a" using False by (simp add: a_def)
  have sa: "sgn n * int a = n" by (simp add: a_def sgn_mult_abs)
  note unfold = roundToDouble_unfold [OF False a_def k_def]
  show ?thesis
  proof (cases "0 < k")
    case False
    with assms unfold have "t = real_of_int (sgn n * int a) * 2 powi e"
      by (simp split: if_splits)
    then show ?thesis by (simp add: sa)
  next
    case True
    define q where "q = roundHalfEven a (nat k)"
    from assms unfold True have t: "t = real_of_int (sgn n * int q) * 2 powi (e + k)"
      by (simp add: q_def split: if_splits)
    have k2: "(2::real) powi k = 2 ^ nat k" using True by (simp add: power_int_def)
    have pk: "(2::real) powi (e + k) = 2 powi e * 2 ^ nat k"
      by (simp add: power_int_add k2)
    have "real_of_int n = real_of_int (sgn n) * real a"
      by (metis sa of_int_mult of_int_of_nat_eq)
    then have "t - real_of_int n * 2 powi e
        = real_of_int (sgn n) * (real q * 2 ^ nat k - real a) * 2 powi e"
      unfolding t pk by (simp add: algebra_simps)
    moreover have "\<bar>real_of_int (sgn n)\<bar> = 1" using \<open>n \<noteq> 0\<close> by (simp add: sgn_if)
    ultimately have "\<bar>t - real_of_int n * 2 powi e\<bar>
        = \<bar>real q * 2 ^ nat k - real a\<bar> * 2 powi e"
      by (simp add: abs_mult)
    also have "\<dots> \<le> (2 ^ nat k / 2) * 2 powi e"
    proof -
      from roundHalfEven_error [of "nat k" a] True
      have "2 * \<bar>int q * 2 ^ nat k - int a\<bar> \<le> 2 ^ nat k" by (simp add: q_def)
      then have "real_of_int (2 * \<bar>int q * 2 ^ nat k - int a\<bar>) \<le> real_of_int (2 ^ nat k)"
        by (rule of_int_le_iff [THEN iffD2])
      then have "\<bar>real q * 2 ^ nat k - real a\<bar> \<le> 2 ^ nat k / 2" by simp
      then show ?thesis by (rule mult_right_mono) simp
    qed
    also have "\<dots> = 2 powi (e + k - 1)"
    proof -
      have "(2::real) powi (e + k) = 2 powi (e + k - 1) * 2 powi 1"
        using power_int_add [of "2::real" "e + k - 1" 1] by simp
      then show ?thesis by (simp add: pk mult.commute)
    qed
    finally have bound: "\<bar>t - real_of_int n * 2 powi e\<bar> \<le> 2 powi (e + k - 1)" .
    show ?thesis
    proof (cases "k = - 1074 - e")
      case True
      then have "e + k - 1 = - 1075" by simp
      with bound show ?thesis by (simp add: max_def)
    next
      case False
      then have k: "k = int (bitlen a) - 53" by (simp add: k_def max_def split: if_splits)
      have bpos: "0 < bitlen a" using apos by (subst bitlen.simps) simp
      from bitlen_bounds [OF apos] have "(2::nat) ^ (bitlen a - 1) \<le> a" by simp
      then have "(2::real) ^ (bitlen a - 1) \<le> real a"
        by (metis of_nat_le_iff of_nat_numeral of_nat_power)
      moreover have "(2::real) powi (int (bitlen a) - 1) = 2 ^ (bitlen a - 1)"
        using bpos by (simp add: power_int_def nat_diff_distrib')
      ultimately have le: "(2::real) powi (int (bitlen a) - 1) \<le> real a" by simp
      have "e + k - 1 = (int (bitlen a) - 1) + (e - 53)" by (simp add: k)
      then have "(2::real) powi (e + k - 1) = 2 powi (int (bitlen a) - 1) * 2 powi (e - 53)"
        by (simp only: power_int_add [of "2::real", simplified])
      also have "\<dots> \<le> real a * 2 powi (e - 53)"
        using le by (rule mult_right_mono) simp
      also have "(2::real) powi (e - 53) = 2 powi e * 2 powi (- 53)"
        using power_int_add [of "2::real" e "- 53"] by simp
      also have "real a * (2 powi e * 2 powi (- 53)) = \<bar>real_of_int n * 2 powi e\<bar> * 2 powi (- 53)"
        by (simp add: a_def abs_mult)
      finally have "2 powi (e + k - 1) \<le> \<bar>real_of_int n * 2 powi e\<bar> * 2 powi (- 53)" .
      with bound show ?thesis by simp
    qed
  qed
qed

text \<open>The doubles nearest to 0.005 and to 0.009.\<close>

lemma double_0005: "\<bar>real_of_int 5764607523034235 * 2 powi (- 60) - 5 / 1000\<bar> \<le> 2 powi (- 61)"
  by simp

lemma double_0009: "\<bar>real_of_int 5188146770730811 * 2 powi (- 59) - 9 / 1000\<bar> \<le> 2 powi (- 60)"
  by simp

lemma roundHalfEven_le: "roundHalfEven a k \<le> a div 2 ^ k + 1"
  by (simp add: roundHalfEven_def Let_def)

text \<open>A finite result is a double: at most 53 binary digits, on the grid.\<close>

lemma roundToDouble_representable:
  assumes "roundToDouble n e = Num t"
  shows "\<exists>q e'. t = real_of_int q * 2 powi e' \<and> \<bar>q\<bar> \<le> 2 ^ 53 \<and> - 1074 \<le> e'"
proof (cases "n = 0")
  case True
  with assms have "t = real_of_int 0 * 2 powi 0" by (simp add: roundToDouble_def)
  then show ?thesis by (intro exI [of _ 0] exI [of _ "0::int"]) simp
next
  case False
  define a where "a = nat \<bar>n\<bar>"
  define k where "k = max (int (bitlen a) - 53) (- 1074 - e)"
  have apos: "0 < a" using False by (simp add: a_def)
  have sgn1: "\<bar>sgn n\<bar> = 1" using False by (simp add: sgn_if)
  note unfold = roundToDouble_unfold [OF False a_def k_def]
  from bitlen_bounds [OF apos] have small: "a < 2 ^ bitlen a" by simp
  show ?thesis
  proof (cases "0 < k")
    case False
    with assms unfold have t: "t = real_of_int (sgn n * int a) * 2 powi e"
      by (simp split: if_splits)
    from False have "bitlen a \<le> 53" and e: "- 1074 \<le> e" by (simp_all add: k_def)
    then have "(2::nat) ^ bitlen a \<le> 2 ^ 53" by (intro power_increasing) simp_all
    with small have "a \<le> 2 ^ 53" by simp
    then have "int a \<le> 2 ^ 53" by (metis of_nat_le_iff of_nat_numeral of_nat_power)
    then have "\<bar>sgn n * int a\<bar> \<le> 2 ^ 53" using sgn1 by (simp add: abs_mult)
    with t e show ?thesis by blast
  next
    case True
    define q where "q = roundHalfEven a (nat k)"
    from assms unfold True have t: "t = real_of_int (sgn n * int q) * 2 powi (e + k)"
      by (simp add: q_def split: if_splits)
    have "bitlen a \<le> 53 + nat k" using True by (simp add: k_def)
    then have "(2::nat) ^ bitlen a \<le> 2 ^ (53 + nat k)" by (intro power_increasing) simp_all
    with small have "a < 2 ^ 53 * 2 ^ nat k" by (simp add: power_add)
    then have "a div 2 ^ nat k < 2 ^ 53" by (simp add: less_mult_imp_div_less)
    with roundHalfEven_le [of a "nat k"] have "q \<le> 2 ^ 53" by (simp add: q_def)
    then have "int q \<le> 2 ^ 53" by (metis of_nat_le_iff of_nat_numeral of_nat_power)
    then have "\<bar>sgn n * int q\<bar> \<le> 2 ^ 53" using sgn1 by (simp add: abs_mult)
    moreover have "- 1074 \<le> e + k" by (simp add: k_def)
    ultimately show ?thesis using t by blast
  qed
qed

text \<open>The product the gate computes, against the exact product.\<close>

lemma js_mul_error:
  assumes "js_mul i (Some (Double m e)) = Num t"
  shows "\<bar>t - real_of_int i * (real_of_int m * 2 powi e)\<bar>
           \<le> max (\<bar>real_of_int i * (real_of_int m * 2 powi e)\<bar> * 2 powi (- 53))
                 (2 powi (- 1075))"
  using roundToDouble_error [of "i * m" e t] assms by (simp add: mult.assoc)

section \<open>Noise gate\<close>

lemma foldl_max_amplitude:
  "foldl (\<lambda>maxAmplitude s. if maxAmplitude < amplitude s then amplitude s else maxAmplitude) m xs
     = Max (insert m (amplitude ` set xs))"
proof (induction xs arbitrary: m)
  case Nil
  then show ?case by simp
next
  case (Cons x xs)
  have "(if m < amplitude x then amplitude x else m) = max m (amplitude x)" by simp
  moreover have "Max (insert (max m (amplitude x)) (amplitude ` set xs))
      = Max (insert m (insert (amplitude x) (amplitude ` set xs)))"
    by (cases "set xs = {}") (simp_all add: max.assoc)
  ultimately show ?case using Cons.IH by simp
qed

lemma findMaxAmplitude_Max: "findMaxAmplitude samples = Max (insert 0 (amplitude ` set samples))"
  by (simp add: findMaxAmplitude_def foldl_max_amplitude)

text \<open>Writing a sample as two bytes and reading them back gives the sample.\<close>

lemma sample_bytes:
  "push_bit 8 (ucast (ucast (drop_bit 8 s) :: byte)) OR ucast (ucast s :: byte) = (s :: int16)"
  by (rule bit_word_eqI) (auto simp: bit_simps)

lemma samplesOf_bytesOf: "samplesOf (bytesOf xs) = xs"
  by (induction xs) (simp_all add: sample_bytes)

lemma length_bytesOf: "length (bytesOf xs) = 2 * length xs"
  by (induction xs) simp_all

lemma length_samplesOf: "length (samplesOf bs) = length bs div 2"
  by (induction bs rule: samplesOf.induct) simp_all

lemma bytesOf_Nil_iff: "bytesOf xs = [] \<longleftrightarrow> xs = []"
  by (cases xs) simp_all

text \<open>The threshold is never below the floor: a sample of value zero does not pass.\<close>

lemma js_gt_floor: "\<not> js_gt (Num 0) (js_max x (Num 100))"
  by (cases x) simp_all

text \<open>The gate on a frame whose view can be made.\<close>

lemma preprocessAudio_aligned:
  assumes "even (byteOffset frame)"
  shows "preprocessAudio cfg frame =
     (let samples = samplesOf (contents frame);
          gateThreshold = js_max (js_mul (findMaxAmplitude samples) (noiseThreshold cfg)) (Num 100)
      in if \<exists>s \<in> set samples. js_gt (Num (real_of_int (amplitude s))) gateThreshold
         then bytesOf
                (map (\<lambda>s. if js_gt (Num (real_of_int (amplitude s))) gateThreshold then s else 0)
                   samples)
         else [])"
  using assms
  by (auto simp add: preprocessAudio_def int16View_def gateThresholdOf_def Let_def list_ex_iff)

text \<open>
  C2. Take a frame of 16-bit samples (even length, at an even offset), and let the gate
  threshold be the larger of 100 and the product of the frame's largest absolute sample
  value with the configured ratio, the product being the one the code computes: the
  product of doubles, rounded to the nearest double (\<open>NaN\<close> when the ratio is not set);
  for a finite ratio it differs from the exact product by at most the fraction \<open>2 ^ - 53\<close>
  of it (\<open>2 ^ - 1075\<close> in the subnormal range). The output is empty exactly when no sample's absolute value exceeds the threshold;
  otherwise it has the frame's length, and its sample at each position is the input
  sample where that sample's absolute value exceeds the threshold and zero elsewhere. A
  frame of zero samples gives the empty output.
\<close>

theorem noise_gate_per_sample:
  assumes "even (byteOffset frame)" and "even (length (contents frame))"
  shows "let samples = samplesOf (contents frame);
             maxAmplitude = Max (insert 0 (set (map (\<lambda>s. \<bar>sint s\<bar>) samples)));
             gateThreshold = js_max (js_mul maxAmplitude (noiseThreshold cfg)) (Num 100);
             kept = (\<lambda>s. js_gt (Num (real_of_int \<bar>sint s\<bar>)) gateThreshold);
             out = preprocessAudio cfg frame
         in (out = [] \<longleftrightarrow> \<not> (\<exists>s \<in> set samples. kept s))
          \<and> (out \<noteq> [] \<longrightarrow> length out = length (contents frame)
                \<and> samplesOf out = map (\<lambda>s. if kept s then s else 0) samples)
          \<and> ((\<forall>s \<in> set samples. s = 0) \<longrightarrow> out = [])
          \<and> (\<forall>m e t. noiseThreshold cfg = Some (Double m e)
                 \<and> js_mul maxAmplitude (noiseThreshold cfg) = Num t \<longrightarrow>
                \<bar>t - real_of_int maxAmplitude * (real_of_int m * 2 powi e)\<bar>
                  \<le> max (\<bar>real_of_int maxAmplitude * (real_of_int m * 2 powi e)\<bar>
                           * 2 powi (- 53))
                        (2 powi (- 1075)))"
proof -
  define samples where "samples = samplesOf (contents frame)"
  define thr where
    "thr = js_max (js_mul (Max (insert 0 (set (map (\<lambda>s. \<bar>sint s\<bar>) samples))))
                     (noiseThreshold cfg)) (Num 100)"
  have m: "findMaxAmplitude samples = Max (insert 0 (set (map (\<lambda>s. \<bar>sint s\<bar>) samples)))"
    by (simp add: findMaxAmplitude_Max amplitude_def [abs_def])
  have out: "preprocessAudio cfg frame =
     (if \<exists>s \<in> set samples. js_gt (Num (real_of_int \<bar>sint s\<bar>)) thr
      then bytesOf (map (\<lambda>s. if js_gt (Num (real_of_int \<bar>sint s\<bar>)) thr then s else 0) samples)
      else [])"
    using preprocessAudio_aligned [OF assms(1), of cfg] m
    by (simp add: Let_def samples_def thr_def amplitude_def)
  have len: "2 * length samples = length (contents frame)"
    using assms(2) by (simp add: samples_def length_samplesOf)
  have zero: "\<not> js_gt (Num (real_of_int \<bar>sint (0::int16)\<bar>)) thr"
    using js_gt_floor by (simp add: thr_def)
  have "(preprocessAudio cfg frame = []
          \<longleftrightarrow> \<not> (\<exists>s \<in> set samples. js_gt (Num (real_of_int \<bar>sint s\<bar>)) thr))"
    by (auto simp: out bytesOf_Nil_iff)
  moreover have "preprocessAudio cfg frame \<noteq> [] \<longrightarrow>
      length (preprocessAudio cfg frame) = length (contents frame)
      \<and> samplesOf (preprocessAudio cfg frame)
          = map (\<lambda>s. if js_gt (Num (real_of_int \<bar>sint s\<bar>)) thr then s else 0) samples"
    using len by (simp add: out samplesOf_bytesOf length_bytesOf)
  moreover have "(\<forall>s \<in> set samples. s = 0) \<longrightarrow> preprocessAudio cfg frame = []"
    using zero by (auto simp: out)
  moreover have "\<forall>m e t. noiseThreshold cfg = Some (Double m e)
       \<and> js_mul (Max (insert 0 (set (map (\<lambda>s. \<bar>sint s\<bar>) samples)))) (noiseThreshold cfg) = Num t
      \<longrightarrow> \<bar>t - real_of_int (Max (insert 0 (set (map (\<lambda>s. \<bar>sint s\<bar>) samples))))
                 * (real_of_int m * 2 powi e)\<bar>
            \<le> max (\<bar>real_of_int (Max (insert 0 (set (map (\<lambda>s. \<bar>sint s\<bar>) samples))))
                      * (real_of_int m * 2 powi e)\<bar> * 2 powi (- 53))
                  (2 powi (- 1075))"
    using js_mul_error by metis
  ultimately show ?thesis
    unfolding Let_def samples_def [symmetric] thr_def [symmetric] by blast
qed

theorem noise_gate_per_sample_witness:
  "even (byteOffset \<lparr>byteOffset = 0, contents = [0x98, 0x3A, 0x87, 0x00]\<rparr>)
   \<and> even (length (contents \<lparr>byteOffset = 0, contents = [0x98, 0x3A, 0x87, 0x00]\<rparr>))
   \<and> samplesOf [0x98, 0x3A, 0x87, 0x00] = [15000, 135]
   \<and> js_mul 15000 (Some (Double 5188146770730811 (- 59))) = Num 135
   \<and> preprocessAudio
       \<lparr>bufferSize = 4, minChunkSize = Some (Double 0 0),
        noiseThreshold = Some (Double 5188146770730811 (- 59))\<rparr>
       \<lparr>byteOffset = 0, contents = [0x98, 0x3A, 0x87, 0x00]\<rparr>
     = [0x98, 0x3A, 0, 0]"
  using noise_gate_per_sample
    [of "\<lparr>byteOffset = 0, contents = [0x98, 0x3A, 0x87, 0x00]\<rparr>"
        "\<lparr>bufferSize = 4, minChunkSize = Some (Double 0 0),
          noiseThreshold = Some (Double 5188146770730811 (- 59))\<rparr>"]
  by (simp add: preprocessAudio_def int16View_def gateThresholdOf_def findMaxAmplitude_def
      amplitude_def roundToDouble_def roundHalfEven_def bitlen.simps Let_def)

text \<open>
  One inbound fragment of exactly \<open>bufferSize\<close> bytes that passes both filters, on a fresh
  processor with the speech connection open: the loop extracts it as the one frame and
  sends what the gate returns for it.
\<close>

lemma replicate_numeral: "replicate (numeral k) x = x # replicate (pred_numeral k) x"
  by (simp add: numeral_eq_Suc)

lemma single_frame_forwarded:
  assumes size: "bufferSize cfg = length chunk" "0 < length chunk"
    and filters: "isValidAudioChunk chunk"
      "js_gt (Num (real (length chunk))) (toNumber (minChunkSize cfg))"
    and gate: "preprocessAudio cfg \<lparr>byteOffset = 0, contents = chunk\<rparr> = out" "out \<noteq> []"
  shows "handleMediaEvent cfg (Some \<lparr>track = Some ''inbound'', payload = Some chunk\<rparr>)
           \<lparr>readyState = OPEN, sendThrows = False\<rparr> newProcessor
         = Some (newProcessor\<lparr>hasSeenMedia := True\<rparr>, [out])"
proof -
  let ?conn = "\<lparr>readyState = OPEN, sendThrows = False\<rparr>"
  have extracted: "extractChunk (length chunk) [chunk] = (Some chunk, [])"
    by (simp add: extractChunk_def)
  have rest: "mediaLoop cfg ?conn [] [out] = Some ([], [out])"
    using size by (subst mediaLoop.simps) (simp add: getBufferSize_def)
  have "mediaLoop cfg ?conn [chunk] [] = Some ([], [out])"
    using size gate
    by (subst mediaLoop.simps) (simp add: getBufferSize_def extracted rest isDeepgramReady_def)
  with filters show ?thesis
    by (simp add: handleMediaEvent_def newProcessor_def push_def)
qed

text \<open>
  C8. A frame of odd byte length is no failure of the gate: the view leaves the last byte
  out, no exception is raised, and what the gate returns is not the original frame but a
  gated frame one byte short. Through \<open>handleMediaEvent\<close>, with \<open>bufferSize\<close> 23, a
  fragment of 23 bytes is sent on as 22.
\<close>

theorem odd_length_frame_not_passed_through:
  "int16View \<lparr>byteOffset = 0, contents = [0x10, 0x27, 0x05, 0x00, 0x07]\<rparr> = Inr [10000, 5]
   \<and> preprocessAudio
       \<lparr>bufferSize = 5, minChunkSize = Some (Double 0 0),
        noiseThreshold = Some (Double 5764607523034235 (- 60))\<rparr>
       \<lparr>byteOffset = 0, contents = [0x10, 0x27, 0x05, 0x00, 0x07]\<rparr> = [0x10, 0x27, 0, 0]
   \<and> handleMediaEvent
       \<lparr>bufferSize = 23, minChunkSize = Some (Double 0 0),
        noiseThreshold = Some (Double 5764607523034235 (- 60))\<rparr>
       (Some \<lparr>track = Some ''inbound'', payload = Some (replicate 23 0x21)\<rparr>)
       \<lparr>readyState = OPEN, sendThrows = False\<rparr> newProcessor
     = Some (newProcessor\<lparr>hasSeenMedia := True\<rparr>, [replicate 22 0x21])"
proof (intro conjI)
  show "int16View \<lparr>byteOffset = 0, contents = [0x10, 0x27, 0x05, 0x00, 0x07]\<rparr> = Inr [10000, 5]"
    by (simp add: int16View_def)
  show "preprocessAudio
       \<lparr>bufferSize = 5, minChunkSize = Some (Double 0 0),
        noiseThreshold = Some (Double 5764607523034235 (- 60))\<rparr>
       \<lparr>byteOffset = 0, contents = [0x10, 0x27, 0x05, 0x00, 0x07]\<rparr> = [0x10, 0x27, 0, 0]"
    by (simp add: preprocessAudio_def int16View_def gateThresholdOf_def findMaxAmplitude_def
        amplitude_def roundToDouble_def roundHalfEven_def bitlen.simps Let_def)
  show "handleMediaEvent
       \<lparr>bufferSize = 23, minChunkSize = Some (Double 0 0),
        noiseThreshold = Some (Double 5764607523034235 (- 60))\<rparr>
       (Some \<lparr>track = Some ''inbound'', payload = Some (replicate 23 0x21)\<rparr>)
       \<lparr>readyState = OPEN, sendThrows = False\<rparr> newProcessor
     = Some (newProcessor\<lparr>hasSeenMedia := True\<rparr>, [replicate 22 0x21])"
  proof (rule single_frame_forwarded)
    show "preprocessAudio
        \<lparr>bufferSize = 23, minChunkSize = Some (Double 0 0),
         noiseThreshold = Some (Double 5764607523034235 (- 60))\<rparr>
        \<lparr>byteOffset = 0, contents = replicate 23 0x21\<rparr> = replicate 22 0x21"
      by (simp add: replicate_numeral preprocessAudio_def int16View_def gateThresholdOf_def
          findMaxAmplitude_def amplitude_def roundToDouble_def roundHalfEven_def bitlen.simps
          Let_def)
  qed (simp_all add: isValidAudioChunk_def toNumber_def replicate_numeral)
qed

text \<open>
  C9. On a frame of odd length the output is neither empty nor as long as the frame: the
  gate returns one byte less. Through \<open>handleMediaEvent\<close>, with \<open>bufferSize\<close> 21, a
  fragment of 21 bytes is sent on as 20.
\<close>

theorem odd_frame_loses_last_byte:
  "preprocessAudio
     \<lparr>bufferSize = 3, minChunkSize = Some (Double 0 0),
      noiseThreshold = Some (Double 5764607523034235 (- 60))\<rparr>
     \<lparr>byteOffset = 0, contents = [0x10, 0x27, 0x05]\<rparr> = [0x10, 0x27]
   \<and> handleMediaEvent
       \<lparr>bufferSize = 21, minChunkSize = Some (Double 0 0),
        noiseThreshold = Some (Double 5764607523034235 (- 60))\<rparr>
       (Some \<lparr>track = Some ''inbound'', payload = Some (replicate 21 0x40)\<rparr>)
       \<lparr>readyState = OPEN, sendThrows = False\<rparr> newProcessor
     = Some (newProcessor\<lparr>hasSeenMedia := True\<rparr>, [replicate 20 0x40])"
proof
  show "preprocessAudio
     \<lparr>bufferSize = 3, minChunkSize = Some (Double 0 0),
      noiseThreshold = Some (Double 5764607523034235 (- 60))\<rparr>
     \<lparr>byteOffset = 0, contents = [0x10, 0x27, 0x05]\<rparr> = [0x10, 0x27]"
    by (simp add: preprocessAudio_def int16View_def gateThresholdOf_def findMaxAmplitude_def
        amplitude_def roundToDouble_def roundHalfEven_def bitlen.simps Let_def)
  show "handleMediaEvent
       \<lparr>bufferSize = 21, minChunkSize = Some (Double 0 0),
        noiseThreshold = Some (Double 5764607523034235 (- 60))\<rparr>
       (Some \<lparr>track = Some ''inbound'', payload = Some (replicate 21 0x40)\<rparr>)
       \<lparr>readyState = OPEN, sendThrows = False\<rparr> newProcessor
     = Some (newProcessor\<lparr>hasSeenMedia := True\<rparr>, [replicate 20 0x40])"
  proof (rule single_frame_forwarded)
    show "preprocessAudio
        \<lparr>bufferSize = 21, minChunkSize = Some (Double 0 0),
         noiseThreshold = Some (Double 5764607523034235 (- 60))\<rparr>
        \<lparr>byteOffset = 0, contents = replicate 21 0x40\<rparr> = replicate 20 0x40"
      by (simp add: replicate_numeral preprocessAudio_def int16View_def gateThresholdOf_def
          findMaxAmplitude_def amplitude_def roundToDouble_def roundHalfEven_def bitlen.simps
          Let_def)
  qed (simp_all add: isValidAudioChunk_def toNumber_def replicate_numeral)
qed

section \<open>Session state\<close>

text \<open>
  C6. The claim as stated fails on the code: after a \<open>stop\<close> message has gone through
  \<open>processMessage\<close>, \<open>messageCount\<close> is 1, not 0.
\<close>

theorem stop_messageCount_counterexample:
  "processMessage supervisorConfig (Utf8 (Some Stop)) \<lparr>readyState = OPEN, sendThrows = False\<rparr>
     newProcessor = Some (Inr (newProcessor\<lparr>messageCount := 1\<rparr>, []))
   \<and> messageCount (newProcessor\<lparr>messageCount := 1\<rparr>) \<noteq> 0"
  by (simp add: processMessage_def handleTwilioEvent_def resetState_def newProcessor_def)

text \<open>
  C6, amended. From every state, under every configuration, a \<open>stop\<close> message returns
  normally, sends nothing, and leaves \<open>streamSid\<close> null, the buffer empty, both flags
  false and \<open>messageCount\<close> at 1: the handler sets the counter to 0 and \<open>processMessage\<close>
  then counts the \<open>stop\<close> message itself.
\<close>

theorem stop_resets_state:
  "processMessage cfg (Utf8 (Some Stop)) conn s =
     Some (Inr (\<lparr>inBuffer = [], hasSeenMedia = False, messageCount = 1,
                  isProcessingAudio = False, streamSid = SidNull\<rparr>, []))"
  by (simp add: processMessage_def handleTwilioEvent_def resetState_def)

theorem stop_resets_state_witness:
  "processMessage supervisorConfig (Utf8 (Some Stop)) \<lparr>readyState = CLOSED, sendThrows = False\<rparr>
     \<lparr>inBuffer = [ [1, 2, 3] ], hasSeenMedia = True, messageCount = 5,
      isProcessingAudio = False, streamSid = Sid ''MZ1''\<rparr>
   = Some (Inr (\<lparr>inBuffer = [], hasSeenMedia = False, messageCount = 1,
                 isProcessingAudio = False, streamSid = SidNull\<rparr>, []))"
  using stop_resets_state
    [of supervisorConfig "\<lparr>readyState = CLOSED, sendThrows = False\<rparr>"
        "\<lparr>inBuffer = [ [1, 2, 3] ], hasSeenMedia = True, messageCount = 5,
          isProcessingAudio = False, streamSid = Sid ''MZ1''\<rparr>"]
  by simp

text \<open>
  C7. The claim as stated fails on the code: a \<open>start\<close> message without a \<open>streamSid\<close>
  overwrites the stored \<open>streamSid\<close> with \<open>undefined\<close> (and is counted).
\<close>

theorem start_without_streamSid_counterexample:
  "processMessage supervisorConfig (Utf8 (Some (Start None)))
     \<lparr>readyState = OPEN, sendThrows = False\<rparr>
     \<lparr>inBuffer = [], hasSeenMedia = False, messageCount = 1,
      isProcessingAudio = False, streamSid = Sid ''MZ1''\<rparr>
   = Some (Inr (\<lparr>inBuffer = [], hasSeenMedia = False, messageCount = 2,
                 isProcessingAudio = False, streamSid = SidUndefined\<rparr>, []))"
  by (simp add: processMessage_def handleTwilioEvent_def)

text \<open>
  C7, amended. From every state, a \<open>start\<close> message without a \<open>streamSid\<close> returns
  normally, sends nothing, sets \<open>streamSid\<close> to \<open>undefined\<close> whatever it was, adds one to
  \<open>messageCount\<close>, and changes nothing else.
\<close>

theorem start_without_streamSid_unsets:
  "processMessage cfg (Utf8 (Some (Start None))) conn s =
     Some (Inr (s\<lparr>streamSid := SidUndefined, messageCount := messageCount s + 1\<rparr>, []))"
  by (simp add: processMessage_def handleTwilioEvent_def)

theorem start_without_streamSid_unsets_witness:
  "processMessage supervisorConfig (Utf8 (Some (Start None)))
     \<lparr>readyState = OPEN, sendThrows = False\<rparr>
     \<lparr>inBuffer = [ [7] ], hasSeenMedia = True, messageCount = 4,
      isProcessingAudio = False, streamSid = Sid ''MZ2''\<rparr>
   = Some (Inr (\<lparr>inBuffer = [ [7] ], hasSeenMedia = True, messageCount = 5,
                 isProcessingAudio = False, streamSid = SidUndefined\<rparr>, []))"
  using start_without_streamSid_unsets
    [of supervisorConfig "\<lparr>readyState = OPEN, sendThrows = False\<rparr>"
        "\<lparr>inBuffer = [ [7] ], hasSeenMedia = True, messageCount = 4,
          isProcessingAudio = False, streamSid = Sid ''MZ2''\<rparr>"]
  by simp

section \<open>The inbound path under the server's configuration\<close>

lemma handleMediaEvent_supervisor:
  "\<exists>s'. handleMediaEvent supervisorConfig m conn s = Some (s', []) \<and> inBuffer s' = inBuffer s"
  by (simp add: handleMediaEvent_def supervisorConfig_def toNumber_def Let_def split: option.splits)

lemma handleTwilioEvent_supervisor:
  "inBuffer s = [] \<Longrightarrow>
   \<exists>s'. handleTwilioEvent supervisorConfig data conn s = Some (s', []) \<and> inBuffer s' = []"
  using handleMediaEvent_supervisor [of _ conn s]
  by (cases data) (auto simp: handleTwilioEvent_def resetState_def)

lemma onTwilioMessage_supervisor:
  assumes "inBuffer s = []"
  shows "\<exists>s'. onTwilioMessage parsed conn s = Some (s', []) \<and> inBuffer s' = []"
proof (cases parsed)
  case None
  with assms show ?thesis by (simp add: onTwilioMessage_def processMessage_def)
next
  case (Some data)
  from handleTwilioEvent_supervisor [OF assms, of data conn] obtain s' where
    "handleTwilioEvent supervisorConfig data conn s = Some (s', [])" "inBuffer s' = []" by blast
  with Some show ?thesis by (simp add: onTwilioMessage_def processMessage_def)
qed

lemma relayInbound_supervisor:
  "inBuffer s = [] \<Longrightarrow> \<exists>s'. relayInbound ms s = Some (s', []) \<and> inBuffer s' = []"
proof (induction ms arbitrary: s)
  case Nil
  then show ?case by simp
next
  case (Cons m ms)
  obtain parsed conn where m: "m = (parsed, conn)" by (cases m)
  from onTwilioMessage_supervisor [OF Cons.prems, of parsed conn] obtain s1 where
    s1: "onTwilioMessage parsed conn s = Some (s1, [])" "inBuffer s1 = []" by blast
  from Cons.IH [OF s1(2)] obtain s2 where
    "relayInbound ms s1 = Some (s2, [])" "inBuffer s2 = []" by blast
  with s1 m show ?case by simp
qed

text \<open>
  C3. Under the configuration the server passes, the comparison of a fragment's length
  with \<open>minChunkSize\<close> is false for every fragment, and for every sequence of inbound
  messages, whatever the state of the speech connection at each, the session handles all
  of them, sends nothing to the speech peer and ends with an empty buffer.
\<close>

theorem inbound_never_forwarded:
  "\<not> js_gt (Num (real (length audioChunk))) (toNumber (minChunkSize supervisorConfig))
   \<and> (\<exists>s'. relayInbound ms newProcessor = Some (s', []) \<and> inBuffer s' = [])"
  using relayInbound_supervisor [of newProcessor ms]
  by (simp add: supervisorConfig_def toNumber_def newProcessor_def)

theorem inbound_never_forwarded_witness:
  "\<exists>s'. relayInbound
      [(Some (Start (Some ''MZ1'')), \<lparr>readyState = OPEN, sendThrows = False\<rparr>),
       (Some (Media (Some \<lparr>track = Some ''inbound'', payload = Some (replicate 3200 1)\<rparr>)),
        \<lparr>readyState = OPEN, sendThrows = False\<rparr>)] newProcessor = Some (s', [])
      \<and> inBuffer s' = []"
  using inbound_never_forwarded by blast

section \<open>Function calls\<close>

text \<open>As long as no entry raised, the loop continues with the entries that follow.\<close>

lemma callFunctions_append:
  "snd (callFunctions fm pre) = None \<Longrightarrow>
   callFunctions fm (pre @ rest)
     = (fst (callFunctions fm pre) @ fst (callFunctions fm rest), snd (callFunctions fm rest))"
  by (induction pre) (auto split: sum.splits prod.splits)

lemma callFunction_echo:
  "callFunction fm fc = Inr r \<Longrightarrow>
   resp_type r = ''FunctionCallResponse'' \<and> resp_id r = call_id fc \<and> resp_name r = call_name fc"
  by (auto simp: callFunction_def functionResult_def split: option.splits outcome.splits)

lemma callFunctions_echo:
  "snd (callFunctions fm entries) = None \<Longrightarrow>
   map resp_id (fst (callFunctions fm entries)) = map call_id entries
   \<and> map resp_name (fst (callFunctions fm entries)) = map call_name entries"
  by (induction entries) (auto split: sum.splits prod.splits dest: callFunction_echo)

lemma handle_no_exception:
  "snd (callFunctions fm entries) = None \<Longrightarrow>
   handleFunctionCallRequest fm entries = fst (callFunctions fm entries)"
  by (cases "callFunctions fm entries") (simp add: handleFunctionCallRequest_def)

lemma handle_append:
  "snd (callFunctions fm pre) = None \<Longrightarrow>
   handleFunctionCallRequest fm (pre @ rest)
     = handleFunctionCallRequest fm pre @ handleFunctionCallRequest fm rest"
  by (auto simp: handleFunctionCallRequest_def callFunctions_append split: prod.splits option.splits)

lemma handle_Cons:
  "handleFunctionCallRequest fm (fc # post) =
     (case callFunction fm fc of
        Inl error \<Rightarrow> [errorResult error]
      | Inr r \<Rightarrow> r # handleFunctionCallRequest fm post)"
  by (auto simp: handleFunctionCallRequest_def split: sum.splits prod.splits option.splits)

text \<open>
  An entry whose name \<open>in\<close> does not find and whose argument text parses, reached without
  an exception, is answered with the error object and its own id and name.
\<close>

lemma unknown_name_answered:
  assumes "snd (callFunctions fm pre) = None"
    and "fm (call_name fc) = None"
    and "call_arguments fc = Some arguments"
  shows "handleFunctionCallRequest fm (pre @ fc # post)
           = handleFunctionCallRequest fm pre
             @ \<lparr>resp_type = ''FunctionCallResponse'', resp_id = call_id fc,
                 resp_name = call_name fc,
                 resp_content = JObj [(''error'', JStr (''Unknown function: '' @ call_name fc))]\<rparr>
             # handleFunctionCallRequest fm post
         \<and> length (handleFunctionCallRequest fm pre) = length pre"
proof -
  have "callFunction fm fc
      = Inr (functionResult fc (JObj [(''error'', JStr (''Unknown function: '' @ call_name fc))]))"
    using assms(2,3) by (simp add: callFunction_def)
  then have "handleFunctionCallRequest fm (fc # post)
      = functionResult fc (JObj [(''error'', JStr (''Unknown function: '' @ call_name fc))])
        # handleFunctionCallRequest fm post"
    by (simp add: handle_Cons)
  moreover have "length (handleFunctionCallRequest fm pre) = length pre"
    using callFunctions_echo [OF assms(1)] handle_no_exception [OF assms(1)]
    by (metis length_map)
  ultimately show ?thesis
    using handle_append [OF assms(1), of "fc # post"]
    by (simp add: functionResult_def)
qed

text \<open>What \<open>in\<close> does not find in an object literal.\<close>

lemma objectLiteral_None:
  "objectLiteral inherited table name = None
     \<longleftrightarrow> table name = None \<and> name \<notin> set objectPrototypeNames"
proof -
  have "''toString'' \<in> set objectPrototypeNames"
    by (simp add: objectPrototypeNames_def)
  then show ?thesis
    by (cases "table name") (auto simp: objectLiteral_def)
qed

text \<open>
  A name that is no key of the table but is inherited is found by \<open>in\<close>, and the
  inherited member is called in place of the error answer: an entry named \<open>toString\<close> is
  answered with the text \<open>[object Object]\<close>, which has no \<open>error\<close> key.
\<close>

lemma inherited_toString_called:
  assumes "table ''toString'' = None"
    and "call_name fc = ''toString''"
    and "call_arguments fc = Some arguments"
  shows "handleFunctionCallRequest (objectLiteral inherited table) [fc]
           = [\<lparr>resp_type = ''FunctionCallResponse'', resp_id = call_id fc,
                resp_name = ''toString'', resp_content = JStr ''[object Object]''\<rparr>]
         \<and> \<not> hasErrorKey (JStr ''[object Object]'')"
  using assms
  by (simp add: handleFunctionCallRequest_def callFunction_def objectLiteral_def
      functionResult_def hasErrorKey_def)

text \<open>
  C4. The claim as stated fails on the code: an entry with an unregistered name that comes
  after an entry whose handler throws is not answered at all; the one response sent
  carries the identifiers \<open>unknown\<close>. (The table is an object literal with the one key
  \<open>charge\<close>; no inherited member is called here.)
\<close>

theorem unknown_function_counterexample:
  "handleFunctionCallRequest
     (objectLiteral (\<lambda>name arguments. Threw ''TypeError'')
        [''charge'' \<mapsto> (\<lambda>arguments. Threw ''Error: card declined'')])
     [\<lparr>call_name = ''charge'', call_id = ''a1'', call_arguments = Some (JObj [])\<rparr>,
      \<lparr>call_name = ''lookup'', call_id = ''a2'', call_arguments = Some (JObj [])\<rparr>]
   = [\<lparr>resp_type = ''FunctionCallResponse'', resp_id = ''unknown'', resp_name = ''unknown'',
       resp_content =
         JObj [(''error'', JStr ''Function call failed with: Error: card declined'')]\<rparr>]"
  by (simp add: handleFunctionCallRequest_def callFunction_def errorResult_def objectLiteral_def)

text \<open>
  C4, amended. Let the function map be the object literal of a dispatch table. Take an
  entry whose name is neither a key of the table nor one of the names every object
  inherits, and whose argument text parses, in a request where no earlier entry raised an
  exception. Then the responses sent are: one for each earlier entry, then exactly one
  for this entry, with the entry's own id and name and a content that is an object with
  the key \<open>error\<close> (\<open>Unknown function:\<close> and the name), then whatever the later entries
  produce.
\<close>

theorem unknown_function_answered:
  assumes "snd (callFunctions (objectLiteral inherited table) pre) = None"
    and "table (call_name fc) = None"
    and "call_name fc \<notin> set objectPrototypeNames"
    and "call_arguments fc = Some arguments"
  shows "handleFunctionCallRequest (objectLiteral inherited table) (pre @ fc # post)
           = handleFunctionCallRequest (objectLiteral inherited table) pre
             @ \<lparr>resp_type = ''FunctionCallResponse'', resp_id = call_id fc,
                 resp_name = call_name fc,
                 resp_content = JObj [(''error'', JStr (''Unknown function: '' @ call_name fc))]\<rparr>
             # handleFunctionCallRequest (objectLiteral inherited table) post
         \<and> length (handleFunctionCallRequest (objectLiteral inherited table) pre) = length pre
         \<and> hasErrorKey (JObj [(''error'', JStr (''Unknown function: '' @ call_name fc))])"
proof -
  have "objectLiteral inherited table (call_name fc) = None"
    using assms(2,3) by (simp add: objectLiteral_None)
  from unknown_name_answered [OF assms(1) this assms(4)] show ?thesis
    by (simp add: hasErrorKey_def)
qed

theorem unknown_function_answered_witness:
  "snd (callFunctions
          (objectLiteral (\<lambda>name arguments. Threw ''TypeError'')
             [''ping'' \<mapsto> (\<lambda>arguments. Returned arguments)])
          [\<lparr>call_name = ''ping'', call_id = ''1'', call_arguments = Some JNull\<rparr>]) = None
   \<and> [''ping'' \<mapsto> (\<lambda>arguments. Returned arguments)] ''lookup'' = None
   \<and> ''lookup'' \<notin> set objectPrototypeNames
   \<and> handleFunctionCallRequest
       (objectLiteral (\<lambda>name arguments. Threw ''TypeError'')
          [''ping'' \<mapsto> (\<lambda>arguments. Returned arguments)])
     [\<lparr>call_name = ''ping'', call_id = ''1'', call_arguments = Some JNull\<rparr>,
      \<lparr>call_name = ''lookup'', call_id = ''2'', call_arguments = Some (JObj [])\<rparr>]
   = [\<lparr>resp_type = ''FunctionCallResponse'', resp_id = ''1'', resp_name = ''ping'',
        resp_content = JNull\<rparr>,
      \<lparr>resp_type = ''FunctionCallResponse'', resp_id = ''2'', resp_name = ''lookup'',
        resp_content = JObj [(''error'', JStr ''Unknown function: lookup'')]\<rparr>]"
  using unknown_function_answered
    [of "\<lambda>name arguments. Threw ''TypeError''"
        "[''ping'' \<mapsto> (\<lambda>arguments. Returned arguments)]"
        "[\<lparr>call_name = ''ping'', call_id = ''1'', call_arguments = Some JNull\<rparr>]"
        "\<lparr>call_name = ''lookup'', call_id = ''2'', call_arguments = Some (JObj [])\<rparr>"
        "JObj []" "[]"]
  by (simp add: handleFunctionCallRequest_def callFunction_def functionResult_def
      objectLiteral_def objectPrototypeNames_def)

text \<open>
  C5. The claim as stated fails on the code: when a handler throws, the one response sent
  carries the identifiers \<open>unknown\<close>, and the entries after it get no response.
\<close>

theorem handler_throws_counterexample:
  "handleFunctionCallRequest
     (\<lambda>name. if name = ''boom'' then Some (\<lambda>a. Threw ''Error: boom'') else None)
     [\<lparr>call_name = ''boom'', call_id = ''7'', call_arguments = Some JNull\<rparr>,
      \<lparr>call_name = ''lookup'', call_id = ''8'', call_arguments = Some JNull\<rparr>]
   = [\<lparr>resp_type = ''FunctionCallResponse'', resp_id = ''unknown'', resp_name = ''unknown'',
       resp_content = JObj [(''error'', JStr ''Function call failed with: Error: boom'')]\<rparr>]"
  by (simp add: handleFunctionCallRequest_def callFunction_def errorResult_def)

text \<open>
  C5, amended. In a request where no entry before a given one raised an exception, each
  of those earlier entries has its response, with its id and name, in order. If the given
  entry raises nothing, exactly one response follows for it, with its id and name (and,
  for a registered name, the handler's result as content), and then whatever the later
  entries produce. If it raises (its handler throws, or its argument text does not
  parse), exactly one response follows, with id and name \<open>unknown\<close> and an error content
  naming the exception, and nothing after it: the later entries get no response.
\<close>

theorem function_call_responses:
  assumes "snd (callFunctions fm pre) = None"
  shows "map resp_id (handleFunctionCallRequest fm pre) = map call_id pre
       \<and> map resp_name (handleFunctionCallRequest fm pre) = map call_name pre
       \<and> (\<forall>r. callFunction fm fc = Inr r \<longrightarrow>
             handleFunctionCallRequest fm (pre @ fc # post)
               = handleFunctionCallRequest fm pre @ r # handleFunctionCallRequest fm post
             \<and> resp_type r = ''FunctionCallResponse'' \<and> resp_id r = call_id fc
             \<and> resp_name r = call_name fc)
       \<and> (\<forall>error. callFunction fm fc = Inl error \<longrightarrow>
             handleFunctionCallRequest fm (pre @ fc # post)
               = handleFunctionCallRequest fm pre
                 @ [\<lparr>resp_type = ''FunctionCallResponse'', resp_id = ''unknown'',
                     resp_name = ''unknown'',
                     resp_content =
                       JObj [(''error'', JStr (''Function call failed with: '' @ error))]\<rparr>])
       \<and> (\<forall>arguments f. call_arguments fc = Some arguments \<and> fm (call_name fc) = Some f \<longrightarrow>
             callFunction fm fc =
               (case f arguments of
                  Returned result \<Rightarrow>
                    Inr \<lparr>resp_type = ''FunctionCallResponse'', resp_id = call_id fc,
                         resp_name = call_name fc, resp_content = result\<rparr>
                | Threw error \<Rightarrow> Inl error))
       \<and> (call_arguments fc = None \<longrightarrow> callFunction fm fc = Inl ''SyntaxError'')"
proof -
  have "\<forall>arguments f. call_arguments fc = Some arguments \<and> fm (call_name fc) = Some f \<longrightarrow>
      callFunction fm fc =
        (case f arguments of
           Returned result \<Rightarrow>
             Inr \<lparr>resp_type = ''FunctionCallResponse'', resp_id = call_id fc,
                  resp_name = call_name fc, resp_content = result\<rparr>
         | Threw error \<Rightarrow> Inl error)"
    by (simp add: callFunction_def functionResult_def split: outcome.splits)
  moreover have "call_arguments fc = None \<longrightarrow> callFunction fm fc = Inl ''SyntaxError''"
    by (simp add: callFunction_def)
  ultimately show ?thesis
    using callFunctions_echo [OF assms] handle_no_exception [OF assms]
      handle_append [OF assms, of "fc # post"] callFunction_echo [of fm fc]
    by (simp add: handle_Cons errorResult_def)
qed

theorem function_call_responses_witness:
  "snd (callFunctions
          (\<lambda>name. if name = ''boom'' then Some (\<lambda>a. Threw ''Error: boom'')
                   else if name = ''ping'' then Some (\<lambda>a. Returned a) else None)
          [\<lparr>call_name = ''ping'', call_id = ''1'', call_arguments = Some JNull\<rparr>]) = None
   \<and> handleFunctionCallRequest
       (\<lambda>name. if name = ''boom'' then Some (\<lambda>a. Threw ''Error: boom'')
                else if name = ''ping'' then Some (\<lambda>a. Returned a) else None)
     [\<lparr>call_name = ''ping'', call_id = ''1'', call_arguments = Some JNull\<rparr>,
      \<lparr>call_name = ''boom'', call_id = ''2'', call_arguments = Some JNull\<rparr>,
      \<lparr>call_name = ''ping'', call_id = ''3'', call_arguments = Some JNull\<rparr>]
   = [\<lparr>resp_type = ''FunctionCallResponse'', resp_id = ''1'', resp_name = ''ping'',
        resp_content = JNull\<rparr>,
      \<lparr>resp_type = ''FunctionCallResponse'', resp_id = ''unknown'', resp_name = ''unknown'',
       resp_content = JObj [(''error'', JStr ''Function call failed with: Error: boom'')]\<rparr>]"
  using function_call_responses
    [of "\<lambda>name. if name = ''boom'' then Some (\<lambda>a. Threw ''Error: boom'')
                 else if name = ''ping'' then Some (\<lambda>a. Returned a) else None"
        "[\<lparr>call_name = ''ping'', call_id = ''1'', call_arguments = Some JNull\<rparr>]"
        "\<lparr>call_name = ''boom'', call_id = ''2'', call_arguments = Some JNull\<rparr>"
        "[\<lparr>call_name = ''ping'', call_id = ''3'', call_arguments = Some JNull\<rparr>]"]
  by (simp add: handleFunctionCallRequest_def callFunction_def functionResult_def)

section \<open>The connection timer\<close>

text \<open>
  C10. When the telephony socket closes before the speech socket has opened, the speech
  socket is closed but \<open>clearTimeout\<close> is never called: the timer stays armed and later
  runs out. When the speech socket opens and the telephony socket then reports an error,
  \<open>clearTimeout\<close> is called twice, the second call changing nothing.
\<close>

theorem timer_left_armed_on_close:
  "connectionTimeout (runSession [TwilioClose]) = Armed
   \<and> clearTimeoutCalls (runSession [TwilioClose]) = 0
   \<and> deepgramCloseCalled (runSession [TwilioClose])
   \<and> connectionTimeout (runSession [TwilioClose, TimeoutExpires]) = Fired
   \<and> clearTimeoutCalls (runSession [DeepgramOpen, TwilioError, TwilioClose]) = 2
   \<and> connectionTimeout (runSession [DeepgramOpen, TwilioError, TwilioClose]) = Cleared"
  by (simp add: runSession_def newSession_def clearTimeout_def)

end
